theory Spec2Isabelle
  imports Complex_Main "HOL-Library.AList"
begin

section \<open>Floating-point values\<close>

text \<open>
  The tensors of the source hold 32-bit floats, a Python \<open>float\<close> is a 64-bit one. A
  floating-point value is a real number, one of the two infinities, or NaN. The two zeros
  are one value here and so are all NaNs; no operation of the source tells them apart
  except in the sign of a zero result.
\<close>

datatype fpval = Fin real | PInf | NInf | NaN

text \<open>The nearest integer, a tie going to the even one.\<close>

definition round_even :: "real \<Rightarrow> int" where
  "round_even x =
     (let f = \<lfloor>x\<rfloor>; d = x - of_int f
      in if d < 1 / 2 then f else if 1 / 2 < d then f + 1 else if even f then f else f + 1)"

text \<open>
  The distance between neighbouring values of the binary format with \<open>p\<close> significant bits
  and least normal exponent \<open>emin\<close>, around \<open>x\<close>.
\<close>

definition ulp :: "nat \<Rightarrow> int \<Rightarrow> real \<Rightarrow> real" where
  "ulp p emin x = 2 powr of_int (max \<lfloor>log 2 \<bar>x\<bar>\<rfloor> emin - (int p - 1))"

text \<open>
  IEEE 754 rounding to nearest, ties to even: the multiple of \<open>ulp\<close> nearest to \<open>x\<close>, and
  an infinity when that is \<open>2 ^ (2 - emin)\<close> or more in magnitude.
\<close>

definition rnd :: "nat \<Rightarrow> int \<Rightarrow> real \<Rightarrow> fpval" where
  "rnd p emin x =
     (if x = 0 then Fin 0
      else let y = of_int (round_even (x / ulp p emin x)) * ulp p emin x
           in if 2 powr of_int (2 - emin) \<le> \<bar>y\<bar> then (if 0 < x then PInf else NInf) else Fin y)"

text \<open>Single precision, the element type of the tensors, and double precision.\<close>

definition rnd32 :: "real \<Rightarrow> fpval" where
  "rnd32 = rnd 24 (- 126)"

definition rnd64 :: "real \<Rightarrow> fpval" where
  "rnd64 = rnd 53 (- 1022)"

fun fp_neg :: "fpval \<Rightarrow> fpval" where
  "fp_neg (Fin a) = Fin (- a)"
| "fp_neg PInf = NInf"
| "fp_neg NInf = PInf"
| "fp_neg NaN = NaN"

text \<open>Addition and multiplication, the exact result rounded by \<open>rd\<close>.\<close>

fun fp_add :: "(real \<Rightarrow> fpval) \<Rightarrow> fpval \<Rightarrow> fpval \<Rightarrow> fpval" where
  "fp_add rd (Fin a) (Fin b) = rd (a + b)"
| "fp_add rd (Fin a) PInf = PInf"
| "fp_add rd (Fin a) NInf = NInf"
| "fp_add rd PInf (Fin b) = PInf"
| "fp_add rd PInf PInf = PInf"
| "fp_add rd NInf (Fin b) = NInf"
| "fp_add rd NInf NInf = NInf"
| "fp_add rd PInf NInf = NaN"
| "fp_add rd NInf PInf = NaN"
| "fp_add rd NaN y = NaN"
| "fp_add rd (Fin a) NaN = NaN"
| "fp_add rd PInf NaN = NaN"
| "fp_add rd NInf NaN = NaN"

fun fp_mul :: "(real \<Rightarrow> fpval) \<Rightarrow> fpval \<Rightarrow> fpval \<Rightarrow> fpval" where
  "fp_mul rd (Fin a) (Fin b) = rd (a * b)"
| "fp_mul rd (Fin a) PInf = (if a = 0 then NaN else if 0 < a then PInf else NInf)"
| "fp_mul rd (Fin a) NInf = (if a = 0 then NaN else if 0 < a then NInf else PInf)"
| "fp_mul rd PInf (Fin b) = (if b = 0 then NaN else if 0 < b then PInf else NInf)"
| "fp_mul rd NInf (Fin b) = (if b = 0 then NaN else if 0 < b then NInf else PInf)"
| "fp_mul rd PInf PInf = PInf"
| "fp_mul rd NInf NInf = PInf"
| "fp_mul rd PInf NInf = NInf"
| "fp_mul rd NInf PInf = NInf"
| "fp_mul rd NaN y = NaN"
| "fp_mul rd (Fin a) NaN = NaN"
| "fp_mul rd PInf NaN = NaN"
| "fp_mul rd NInf NaN = NaN"

text \<open>The operations on tensor elements.\<close>

definition fadd :: "fpval \<Rightarrow> fpval \<Rightarrow> fpval" where
  "fadd = fp_add rnd32"

definition fmul :: "fpval \<Rightarrow> fpval \<Rightarrow> fpval" where
  "fmul = fp_mul rnd32"

text \<open>
  \<open>torch.exp\<close>, \<open>nn.ReLU\<close> and \<open>torch.sigmoid\<close> on one element. The exponential and the
  sigmoid are taken correctly rounded; the library's results may differ from that in the
  last bit.
\<close>

fun fexp :: "fpval \<Rightarrow> fpval" where
  "fexp (Fin a) = rnd32 (exp a)"
| "fexp PInf = PInf"
| "fexp NInf = Fin 0"
| "fexp NaN = NaN"

fun frelu :: "fpval \<Rightarrow> fpval" where
  "frelu (Fin a) = Fin (max 0 a)"
| "frelu PInf = PInf"
| "frelu NInf = Fin 0"
| "frelu NaN = NaN"

fun fsigmoid :: "fpval \<Rightarrow> fpval" where
  "fsigmoid (Fin a) = rnd32 (1 / (1 + exp (- a)))"
| "fsigmoid PInf = Fin 1"
| "fsigmoid NInf = Fin 0"
| "fsigmoid NaN = NaN"

text \<open>A Python float as an operand of a tensor operation: it is converted to single precision.\<close>

fun to_f32 :: "fpval \<Rightarrow> fpval" where
  "to_f32 (Fin a) = rnd32 a"
| "to_f32 PInf = PInf"
| "to_f32 NInf = NInf"
| "to_f32 NaN = NaN"

text \<open>\<open>a - b\<close> on Python floats.\<close>

definition dsub :: "fpval \<Rightarrow> fpval \<Rightarrow> fpval" where
  "dsub a b = fp_add rnd64 a (fp_neg b)"

text \<open>
  The values a tensor can hold are those that single-precision rounding leaves alone;
  the finite ones are the real numbers among them.
\<close>

fun is_f32 :: "fpval \<Rightarrow> bool" where
  "is_f32 (Fin a) = (rnd32 a = Fin a)"
| "is_f32 PInf = True"
| "is_f32 NInf = True"
| "is_f32 NaN = True"

fun is_finite :: "fpval \<Rightarrow> bool" where
  "is_finite (Fin a) = True"
| "is_finite PInf = False"
| "is_finite NInf = False"
| "is_finite NaN = False"

section \<open>Tensors\<close>

text \<open>
  A tensor is its shape and its elements in row-major order. A tensor of the source always
  holds as many elements as its shape says, which is \<open>wf_tensor\<close>.
\<close>

record tensor =
  shape :: "nat list"
  elems :: "fpval list"

definition wf_tensor :: "tensor \<Rightarrow> bool" where
  "wf_tensor x = (length (elems x) = prod_list (shape x))"

datatype error = AssertionError | EinopsError | RuntimeError | OverflowError

text \<open>An exception of the first step ends the computation; otherwise the second runs.\<close>

definition and_then :: "error + 'a \<Rightarrow> ('a \<Rightarrow> error + 'b) \<Rightarrow> error + 'b" where
  "and_then m f = (case m of Inl e \<Rightarrow> Inl e | Inr a \<Rightarrow> f a)"

text \<open>
  The global random generator: the values it will hand out, in order. Which values these
  are, and so the distribution they follow, is left open.
\<close>

type_synonym generator = "nat \<Rightarrow> fpval"

definition tmap :: "(fpval \<Rightarrow> fpval) \<Rightarrow> tensor \<Rightarrow> tensor" where
  "tmap f x = \<lparr>shape = shape x, elems = map f (elems x)\<rparr>"

text \<open>\<open>c * x\<close> for a Python float \<open>c\<close> and a tensor \<open>x\<close>.\<close>

definition scalar_mul :: "fpval \<Rightarrow> tensor \<Rightarrow> tensor" where
  "scalar_mul c x = tmap (fmul (to_f32 c)) x"

text \<open>\<open>c * x\<close> for a literal \<open>c\<close>, which Python reads as the nearest double.\<close>

definition smul :: "real \<Rightarrow> tensor \<Rightarrow> tensor" where
  "smul c x = scalar_mul (rnd64 c) x"

definition texp :: "tensor \<Rightarrow> tensor" where
  "texp x = tmap fexp x"

definition relu :: "tensor \<Rightarrow> tensor" where
  "relu x = tmap frelu x"

definition sigmoid :: "tensor \<Rightarrow> tensor" where
  "sigmoid x = tmap fsigmoid x"

subsection \<open>Elementwise binary operations, with broadcasting\<close>

text \<open>
  Shapes are aligned at their last dimension; two sizes agree when they are equal or one
  of them is 1. \<open>bc_rev\<close> works on the reversed shapes.
\<close>

fun bc_rev :: "nat list \<Rightarrow> nat list \<Rightarrow> nat list option" where
  "bc_rev [] ys = Some ys"
| "bc_rev (x # xs) [] = Some (x # xs)"
| "bc_rev (x # xs) (y # ys) =
     (if x = y \<or> y = 1 then map_option ((#) x) (bc_rev xs ys)
      else if x = 1 then map_option ((#) y) (bc_rev xs ys)
      else None)"

definition broadcast_shapes :: "nat list \<Rightarrow> nat list \<Rightarrow> nat list option" where
  "broadcast_shapes s t = map_option rev (bc_rev (rev s) (rev t))"

text \<open>\<open>rows n k xs\<close>: the \<open>n\<close> consecutive slices of length \<open>k\<close> of \<open>xs\<close>.\<close>

definition rows :: "nat \<Rightarrow> nat \<Rightarrow> fpval list \<Rightarrow> fpval list list" where
  "rows n k xs = map (\<lambda>i. take k (drop (i * k) xs)) [0..<n]"

text \<open>
  \<open>expand s t xs\<close>: the elements \<open>xs\<close> of a tensor of shape \<open>s\<close>, repeated to the shape
  \<open>t\<close> of the same rank, where each size of \<open>s\<close> is that of \<open>t\<close> or 1.
\<close>

fun expand :: "nat list \<Rightarrow> nat list \<Rightarrow> fpval list \<Rightarrow> fpval list" where
  "expand [] ts xs = xs"
| "expand (a # as) [] xs = xs"
| "expand (a # as) (t # ts) xs =
     (if a = t then concat (map (expand as ts) (rows a (prod_list as) xs))
      else concat (replicate t (expand as ts xs)))"

definition expand_to :: "nat list \<Rightarrow> tensor \<Rightarrow> fpval list" where
  "expand_to t x = expand (replicate (length t - length (shape x)) 1 @ shape x) t (elems x)"

definition tbinop :: "(fpval \<Rightarrow> fpval \<Rightarrow> fpval) \<Rightarrow> tensor \<Rightarrow> tensor \<Rightarrow> error + tensor" where
  "tbinop f x y =
     (case broadcast_shapes (shape x) (shape y) of
        None \<Rightarrow> Inl RuntimeError
      | Some t \<Rightarrow> Inr \<lparr>shape = t, elems = map2 f (expand_to t x) (expand_to t y)\<rparr>)"

definition tadd :: "tensor \<Rightarrow> tensor \<Rightarrow> error + tensor" where
  "tadd x y = tbinop fadd x y"

definition tmul :: "tensor \<Rightarrow> tensor \<Rightarrow> error + tensor" where
  "tmul x y = tbinop fmul x y"

subsection \<open>The three rearrangements and squeeze\<close>

text \<open>\<open>rearrange(x, 'b c h w -> b (c h w)')\<close>\<close>

definition flatten_bchw :: "tensor \<Rightarrow> error + tensor" where
  "flatten_bchw x =
     (case shape x of
        [b, c, h, w] \<Rightarrow> Inr \<lparr>shape = [b, c * h * w], elems = elems x\<rparr>
      | _ \<Rightarrow> Inl EinopsError)"

text \<open>\<open>rearrange(x, 'b (c h w) -> b c h w', c=c, h=h, w=w)\<close>\<close>

definition unflatten_bchw :: "tensor \<Rightarrow> nat \<Rightarrow> nat \<Rightarrow> nat \<Rightarrow> error + tensor" where
  "unflatten_bchw x c h w =
     (case shape x of
        [b, n] \<Rightarrow>
          if n = c * h * w then Inr \<lparr>shape = [b, c, h, w], elems = elems x\<rparr>
          else Inl EinopsError
      | _ \<Rightarrow> Inl EinopsError)"

text \<open>\<open>rearrange(x, 'c h w -> 1 c h w')\<close>\<close>

definition add_batch :: "tensor \<Rightarrow> error + tensor" where
  "add_batch x =
     (case shape x of
        [c, h, w] \<Rightarrow> Inr \<lparr>shape = [1, c, h, w], elems = elems x\<rparr>
      | _ \<Rightarrow> Inl EinopsError)"

text \<open>\<open>x.squeeze(0)\<close>: the first dimension is dropped when its size is 1.\<close>

definition squeeze0 :: "tensor \<Rightarrow> tensor" where
  "squeeze0 x =
     (case shape x of
        [] \<Rightarrow> x
      | d # ds \<Rightarrow> if d = 1 then \<lparr>shape = ds, elems = elems x\<rparr> else x)"

section \<open>Linear layers\<close>

text \<open>
  \<open>nn.Linear(n_in, n_out)\<close> holds a weight of shape \<open>(n_out, n_in)\<close> and a bias of shape \<open>(n_out)\<close>. Its
  initial values are random; the constructor takes them as the parameters \<open>w0\<close>, \<open>b0\<close>.
\<close>

record linear =
  in_features :: nat
  out_features :: nat
  weight :: tensor
  bias :: tensor

definition Linear :: "(nat \<Rightarrow> fpval) \<Rightarrow> (nat \<Rightarrow> fpval) \<Rightarrow> nat \<Rightarrow> nat \<Rightarrow> linear" where
  "Linear w0 b0 n_in n_out =
     \<lparr>in_features = n_in, out_features = n_out,
      weight = \<lparr>shape = [n_out, n_in], elems = map w0 [0..<n_out * n_in]\<rparr>,
      bias = \<lparr>shape = [n_out], elems = map b0 [0..<n_out]\<rparr>\<rparr>"

definition wf_linear :: "linear \<Rightarrow> bool" where
  "wf_linear l =
     (shape (weight l) = [out_features l, in_features l] \<and> wf_tensor (weight l) \<and>
      shape (bias l) = [out_features l] \<and> wf_tensor (bias l))"

text \<open>
  The products of a dot product are added up from left to right, each sum rounded. The
  source leaves the order to the library's matrix product.
\<close>

definition dot :: "fpval list \<Rightarrow> fpval list \<Rightarrow> fpval" where
  "dot xs ys = foldl fadd (Fin 0) (map2 fmul xs ys)"

text \<open>One input row \<open>v\<close> through the layer: \<open>W v + b\<close>.\<close>

definition affine :: "linear \<Rightarrow> fpval list \<Rightarrow> fpval list" where
  "affine l v =
     map (\<lambda>j. fadd (dot (take (in_features l) (drop (j * in_features l) (elems (weight l)))) v)
                    (elems (bias l) ! j))
         [0..<out_features l]"

text \<open>
  The layer applied to a tensor of shape \<open>(*, in_features)\<close>: every row of the last
  dimension goes through \<open>affine\<close>. Any other last dimension is a RuntimeError.
\<close>

definition linear_forward :: "linear \<Rightarrow> tensor \<Rightarrow> error + tensor" where
  "linear_forward l x =
     (if shape x = [] \<or> last (shape x) \<noteq> in_features l then Inl RuntimeError
      else Inr \<lparr>shape = butlast (shape x) @ [out_features l],
                elems = concat (map (affine l)
                  (rows (prod_list (butlast (shape x))) (in_features l) (elems x)))\<rparr>)"

section \<open>The variational autoencoder\<close>

record vae =
  input_dim :: nat
  hidden_dim :: nat
  latent_dim :: nat
  image_width :: nat
  image_height :: nat
  enc_fc1 :: linear
  enc_fc2 :: linear
  fc_mu :: linear
  fc_logvar :: linear
  dec_fc1 :: linear
  dec_fc2 :: linear
  dec_fc3 :: linear

text \<open>
  \<open>int(math.sqrt(n))\<close>: the integer is converted to a double, which raises OverflowError
  when it is too large; the square root is the correctly rounded one of that double, and
  \<open>int\<close> drops its fraction.
\<close>

definition int_sqrt :: "nat \<Rightarrow> error + nat" where
  "int_sqrt n =
     (case rnd64 (real n) of
        Fin a \<Rightarrow> (case rnd64 (sqrt a) of Fin r \<Rightarrow> Inr (nat \<lfloor>r\<rfloor>) | _ \<Rightarrow> Inl OverflowError)
      | _ \<Rightarrow> Inl OverflowError)"

text \<open>
  The constructor. \<open>ini k\<close> gives the initial weight and bias values of the \<open>k\<close>-th
  layer, in the order the layers are created.
\<close>

definition VariationalAutoencoder ::
  "(nat \<Rightarrow> (nat \<Rightarrow> fpval) \<times> (nat \<Rightarrow> fpval)) \<Rightarrow> nat \<Rightarrow> nat \<Rightarrow> nat \<Rightarrow> error + vae" where
  "VariationalAutoencoder ini d h l =
     and_then (int_sqrt d) (\<lambda>width.
     and_then (int_sqrt d) (\<lambda>height.
     Inr \<lparr>input_dim = d, hidden_dim = h, latent_dim = l,
          image_width = width, image_height = height,
          enc_fc1 = Linear (fst (ini 0)) (snd (ini 0)) d h,
          enc_fc2 = Linear (fst (ini 1)) (snd (ini 1)) h h,
          fc_mu = Linear (fst (ini 2)) (snd (ini 2)) h l,
          fc_logvar = Linear (fst (ini 3)) (snd (ini 3)) h l,
          dec_fc1 = Linear (fst (ini 4)) (snd (ini 4)) l h,
          dec_fc2 = Linear (fst (ini 5)) (snd (ini 5)) h h,
          dec_fc3 = Linear (fst (ini 6)) (snd (ini 6)) h d\<rparr>))"

definition MNIST_VAE :: "(nat \<Rightarrow> (nat \<Rightarrow> fpval) \<times> (nat \<Rightarrow> fpval)) \<Rightarrow> error + vae" where
  "MNIST_VAE ini = VariationalAutoencoder ini (1 * 28 * 28) 400 200"

text \<open>
  What the constructor establishes and loading a checkpoint keeps: the image sizes are
  those computed from \<open>input_dim\<close>, and every layer has the sizes it was created with.
\<close>

definition wf_vae :: "vae \<Rightarrow> bool" where
  "wf_vae v =
     (int_sqrt (input_dim v) = Inr (image_width v) \<and>
      int_sqrt (input_dim v) = Inr (image_height v) \<and>
      wf_linear (enc_fc1 v) \<and> in_features (enc_fc1 v) = input_dim v \<and>
        out_features (enc_fc1 v) = hidden_dim v \<and>
      wf_linear (enc_fc2 v) \<and> in_features (enc_fc2 v) = hidden_dim v \<and>
        out_features (enc_fc2 v) = hidden_dim v \<and>
      wf_linear (fc_mu v) \<and> in_features (fc_mu v) = hidden_dim v \<and>
        out_features (fc_mu v) = latent_dim v \<and>
      wf_linear (fc_logvar v) \<and> in_features (fc_logvar v) = hidden_dim v \<and>
        out_features (fc_logvar v) = latent_dim v \<and>
      wf_linear (dec_fc1 v) \<and> in_features (dec_fc1 v) = latent_dim v \<and>
        out_features (dec_fc1 v) = hidden_dim v \<and>
      wf_linear (dec_fc2 v) \<and> in_features (dec_fc2 v) = hidden_dim v \<and>
        out_features (dec_fc2 v) = hidden_dim v \<and>
      wf_linear (dec_fc3 v) \<and> in_features (dec_fc3 v) = hidden_dim v \<and>
        out_features (dec_fc3 v) = input_dim v)"

definition encode :: "vae \<Rightarrow> tensor \<Rightarrow> error + tensor \<times> tensor" where
  "encode v x =
     and_then (flatten_bchw x) (\<lambda>x0.
     and_then (linear_forward (enc_fc1 v) x0) (\<lambda>a1.
     and_then (linear_forward (enc_fc2 v) (relu a1)) (\<lambda>a2.
     and_then (linear_forward (fc_mu v) (relu a2)) (\<lambda>mean.
     and_then (linear_forward (fc_logvar v) (relu a2)) (\<lambda>log_var.
     Inr (mean, log_var))))))"

definition decode :: "vae \<Rightarrow> tensor \<Rightarrow> error + tensor" where
  "decode v latent =
     and_then (linear_forward (dec_fc1 v) latent) (\<lambda>a1.
     and_then (linear_forward (dec_fc2 v) (relu a1)) (\<lambda>a2.
     and_then (linear_forward (dec_fc3 v) (relu a2)) (\<lambda>a3.
     unflatten_bchw (sigmoid a3) 1 (image_width v) (image_height v))))"

text \<open>\<open>torch.randn_like(x)\<close>: as many values as \<open>x\<close> has elements, taken off the generator.\<close>

definition randn_like :: "tensor \<Rightarrow> generator \<Rightarrow> tensor \<times> generator" where
  "randn_like x g =
     (let n = prod_list (shape x)
      in (\<lparr>shape = shape x, elems = map g [0..<n]\<rparr>, \<lambda>i. g (i + n)))"

text \<open>
  \<open>reparameterization(mean, var)\<close>: the result, or the exception, together with the
  generator after the draw.
\<close>

definition reparameterization :: "tensor \<Rightarrow> tensor \<Rightarrow> generator \<Rightarrow> (error + tensor) \<times> generator" where
  "reparameterization mean var g =
     (let (epsilon, g') = randn_like var g
      in (and_then (tmul var epsilon) (\<lambda>p. tadd mean p), g'))"

text \<open>\<open>x.shape[-3:]\<close>\<close>

definition last3 :: "nat list \<Rightarrow> nat list" where
  "last3 s = drop (length s - 3) s"

definition forward :: "vae \<Rightarrow> tensor \<Rightarrow> generator \<Rightarrow> (error + tensor \<times> tensor \<times> tensor) \<times> generator" where
  "forward v x g =
     (if last3 (shape x) \<noteq> [1, 28, 28] then (Inl AssertionError, g)
      else case encode v x of
        Inl e \<Rightarrow> (Inl e, g)
      | Inr (mean, log_var) \<Rightarrow>
          (case reparameterization mean (texp (smul 0.5 log_var)) g of
             (Inl e, g') \<Rightarrow> (Inl e, g')
           | (Inr z, g') \<Rightarrow>
               (case decode v z of
                  Inl e \<Rightarrow> (Inl e, g')
                | Inr x_reconstructed \<Rightarrow> (Inr (x_reconstructed, mean, log_var), g'))))"

section \<open>The interpolation model\<close>

text \<open>\<open>InterpolationModel.forward\<close>; \<open>interpolation\<close> is a Python float.\<close>

definition interpolate :: "vae \<Rightarrow> tensor \<Rightarrow> tensor \<Rightarrow> fpval \<Rightarrow> generator \<Rightarrow> (error + tensor) \<times> generator" where
  "interpolate v input_img1 input_img2 interpolation g =
     (if shape input_img1 \<noteq> [1, 28, 28] then (Inl AssertionError, g)
      else if shape input_img2 \<noteq> [1, 28, 28] then (Inl AssertionError, g)
      else case and_then (add_batch input_img1) (\<lambda>b1.
                and_then (add_batch input_img2) (\<lambda>b2.
                and_then (encode v b1) (\<lambda>e1.
                and_then (encode v b2) (\<lambda>e2. Inr (e1, e2))))) of
        Inl e \<Rightarrow> (Inl e, g)
      | Inr ((mean1, log_var1), (mean2, log_var2)) \<Rightarrow>
          (case reparameterization mean1 (texp (smul 0.5 log_var1)) g of
             (Inl e, g1) \<Rightarrow> (Inl e, g1)
           | (Inr z1, g1) \<Rightarrow>
               (case reparameterization mean2 (texp (smul 0.5 log_var2)) g1 of
                  (Inl e, g2) \<Rightarrow> (Inl e, g2)
                | (Inr z2, g2) \<Rightarrow>
                    (and_then (tadd (scalar_mul (dsub (Fin 1) interpolation) z1)
                                    (scalar_mul interpolation z2))
                       (\<lambda>latent_vector.
                     and_then (decode v latent_vector) (\<lambda>interpolated_image.
                     Inr (squeeze0 interpolated_image))), g2))))"

section \<open>The forward pass as the specification words it\<close>

text \<open>
  Encode, take the exponential of half the log-variance as the standard deviation,
  reparameterize, decode; return the reconstruction with the mean and the log-variance.
\<close>

definition pipeline_spec :: "vae \<Rightarrow> tensor \<Rightarrow> generator \<Rightarrow> (error + tensor \<times> tensor \<times> tensor) \<times> generator" where
  "pipeline_spec v x g =
     (case encode v x of
        Inl e \<Rightarrow> (Inl e, g)
      | Inr (mean, log_var) \<Rightarrow>
          (let stddev = texp (smul 0.5 log_var);
               (z, g') = reparameterization mean stddev g
           in (and_then z (\<lambda>latent.
               and_then (decode v latent) (\<lambda>x_hat. Inr (x_hat, mean, log_var))), g')))"

section \<open>Example values\<close>

text \<open>
  \<open>torch.full\<close> and \<open>torch.zeros\<close>; parameters that are one value per layer; a generator
  that hands out zeros.
\<close>

definition full :: "nat list \<Rightarrow> fpval \<Rightarrow> tensor" where
  "full s c = \<lparr>shape = s, elems = replicate (prod_list s) c\<rparr>"

definition zeros :: "nat list \<Rightarrow> tensor" where
  "zeros s = full s (Fin 0)"

definition layer_init :: "(nat \<Rightarrow> fpval) \<Rightarrow> (nat \<Rightarrow> fpval) \<Rightarrow> nat \<Rightarrow> (nat \<Rightarrow> fpval) \<times> (nat \<Rightarrow> fpval)" where
  "layer_init w b k = (\<lambda>i. w k, \<lambda>i. b k)"

definition zero_init :: "nat \<Rightarrow> (nat \<Rightarrow> fpval) \<times> (nat \<Rightarrow> fpval)" where
  "zero_init = layer_init (\<lambda>k. Fin 0) (\<lambda>k. Fin 0)"

definition zero_gen :: generator where
  "zero_gen i = Fin 0"

section \<open>Rounding: basic facts\<close>

lemma round_even_of_int [simp]: "round_even (of_int k) = k"
  by (simp add: round_even_def)

lemma round_even_le:
  assumes "x \<le> of_int n"
  shows "round_even x \<le> n"
proof -
  have f: "\<lfloor>x\<rfloor> \<le> n"
    using assms by (simp add: floor_le_iff)
  show ?thesis
  proof (cases "x - of_int \<lfloor>x\<rfloor> < 1 / 2")
    case True
    then show ?thesis using f by (simp add: round_even_def Let_def)
  next
    case False
    have "\<lfloor>x\<rfloor> \<noteq> n"
    proof
      assume eq: "\<lfloor>x\<rfloor> = n"
      have "of_int \<lfloor>x\<rfloor> \<le> x" by (rule of_int_floor_le)
      with eq assms have "x = of_int \<lfloor>x\<rfloor>" by simp
      then have "x - of_int \<lfloor>x\<rfloor> = 0" by simp
      with False show False by simp
    qed
    with f have "\<lfloor>x\<rfloor> + 1 \<le> n" by simp
    with f show ?thesis by (simp add: round_even_def Let_def)
  qed
qed

lemma round_even_ge:
  assumes "of_int n \<le> x"
  shows "n \<le> round_even x"
proof -
  have "n \<le> \<lfloor>x\<rfloor>"
    using assms by (simp add: le_floor_iff)
  then show ?thesis by (simp add: round_even_def Let_def)
qed

lemma rnd_0 [simp]: "rnd p emin 0 = Fin 0"
  by (simp add: rnd_def)

lemma ulp_pos: "0 < ulp p emin x"
  by (simp add: ulp_def)

lemma two_powr_int: "0 \<le> k \<Longrightarrow> (2::real) powr of_int k = of_int (2 ^ nat k)"
  by (simp add: powr_real_of_int)

lemma log2_abs_of_int_less:
  assumes "m \<noteq> 0" "\<bar>m\<bar> < 2 ^ p"
  shows "log 2 \<bar>real_of_int m\<bar> < real p"
proof -
  have "real_of_int \<bar>m\<bar> < real_of_int (2 ^ p)"
    using assms(2) by (simp only: of_int_less_iff)
  then have "\<bar>real_of_int m\<bar> < 2 powr real p"
    by (simp add: powr_realpow)
  moreover have "0 < \<bar>real_of_int m\<bar>"
    using assms(1) by simp
  ultimately show ?thesis
    by (simp add: log_less_iff)
qed

lemma rnd_representable:
  assumes m: "\<bar>m\<bar> < 2 ^ p" and e: "emin - (int p - 1) \<le> e"
    and b: "\<bar>real_of_int m * 2 powr of_int e\<bar> < 2 powr of_int (2 - emin)"
  shows "rnd p emin (of_int m * 2 powr of_int e) = Fin (of_int m * 2 powr of_int e)"
proof (cases "m = 0")
  case True
  then show ?thesis by simp
next
  case False
  define x where "x = real_of_int m * 2 powr of_int e"
  define q where "q = max \<lfloor>log 2 \<bar>x\<bar>\<rfloor> emin - (int p - 1)"
  have x0: "x \<noteq> 0"
    using False by (simp add: x_def)
  have "log 2 \<bar>x\<bar> = log 2 (\<bar>real_of_int m\<bar> * 2 powr of_int e)"
    by (simp add: x_def abs_mult)
  also have "\<dots> = log 2 \<bar>real_of_int m\<bar> + of_int e"
    using False by (simp add: log_mult)
  also have "\<dots> < real p + of_int e"
    using log2_abs_of_int_less [OF False m] by simp
  finally have "log 2 \<bar>x\<bar> < of_int (int p + e)"
    by simp
  then have "\<lfloor>log 2 \<bar>x\<bar>\<rfloor> < int p + e"
    by (simp only: floor_less_iff)
  then have qe: "q \<le> e"
    using e by (simp add: q_def)
  have u: "ulp p emin x = 2 powr of_int q"
    by (simp add: ulp_def q_def)
  have "x / ulp p emin x = of_int m * (2 powr of_int e / 2 powr of_int q)"
    unfolding u by (simp add: x_def)
  also have "2 powr of_int e / 2 powr of_int q = (2::real) powr of_int (e - q)"
    by (simp add: powr_diff)
  also have "\<dots> = of_int (2 ^ nat (e - q))"
    using qe by (intro two_powr_int) simp
  finally have "x / ulp p emin x = of_int (m * 2 ^ nat (e - q))"
    by simp
  then have "round_even (x / ulp p emin x) = m * 2 ^ nat (e - q)"
    by (simp only: round_even_of_int)
  then have "of_int (round_even (x / ulp p emin x)) * ulp p emin x =
      of_int (m * 2 ^ nat (e - q)) * ulp p emin x"
    by simp
  also have "of_int (m * 2 ^ nat (e - q)) = x / ulp p emin x"
    using \<open>x / ulp p emin x = of_int (m * 2 ^ nat (e - q))\<close> by simp
  also have "x / ulp p emin x * ulp p emin x = x"
    using ulp_pos [of p emin x] by simp
  finally have y: "of_int (round_even (x / ulp p emin x)) * ulp p emin x = x" .
  have "\<not> 2 powr of_int (2 - emin) \<le> \<bar>x\<bar>"
    using b by (simp add: x_def)
  then have "rnd p emin x = Fin x"
    using x0 y by (simp add: rnd_def Let_def)
  then show ?thesis by (simp add: x_def)
qed

lemma rnd32_int:
  assumes "\<bar>m\<bar> < 2 ^ 24"
  shows "rnd32 (of_int m) = Fin (of_int m)"
proof -
  have "\<bar>real_of_int m\<bar> < real_of_int (2 ^ 24)"
    using assms by (simp only: of_int_abs of_int_less_iff [symmetric])
  then have "\<bar>real_of_int m * 2 powr of_int 0\<bar> < 2 powr of_int (2 - (- 126))"
    by simp
  from rnd_representable [OF assms _ this] show ?thesis
    by (simp add: rnd32_def)
qed

lemma rnd32_1: "rnd32 1 = Fin 1"
  using rnd32_int [of 1] by simp

lemma rnd32_128: "rnd32 128 = Fin 128"
  using rnd32_int [of 128] by simp

lemma rnd32_256: "rnd32 256 = Fin 256"
  using rnd32_int [of 256] by simp

lemma rnd32_half: "rnd32 (1 / 2) = Fin (1 / 2)"
proof -
  have "\<bar>real_of_int 1 * 2 powr of_int (- 1)\<bar> < 2 powr of_int (2 - (- 126))"
    by (simp add: powr_minus)
  from rnd_representable [of 1 24 "- 126" "- 1", OF _ _ this] show ?thesis
    by (simp add: rnd32_def powr_minus)
qed

lemma rnd64_half: "rnd64 (1 / 2) = Fin (1 / 2)"
proof -
  have "\<bar>real_of_int 1 * 2 powr of_int (- 1)\<bar> < 2 powr of_int (2 - (- 1022))"
    by (simp add: powr_minus)
  from rnd_representable [of 1 53 "- 1022" "- 1", OF _ _ this] show ?thesis
    by (simp add: rnd64_def powr_minus)
qed

lemma rnd64_1: "rnd64 1 = Fin 1"
proof -
  have "\<bar>real_of_int 1 * 2 powr of_int 0\<bar> < 2 powr of_int (2 - (- 1022))"
    by simp
  from rnd_representable [of 1 53 "- 1022" 0, OF _ _ this] show ?thesis
    by (simp add: rnd64_def)
qed

lemma ulp_eq:
  "ulp p emin x = 2 powr of_int (max \<lfloor>log 2 \<bar>x\<bar>\<rfloor> emin - (int p - 1))"
  by (simp add: ulp_def)

lemma two_powr_log_abs:
  assumes "x \<noteq> 0"
  shows "2 powr log 2 \<bar>x\<bar> = \<bar>x\<bar>"
  using assms by simp

lemma two_powr_floor_log_le:
  assumes "x \<noteq> 0"
  shows "2 powr of_int \<lfloor>log 2 \<bar>x\<bar>\<rfloor> \<le> \<bar>x\<bar>"
proof -
  have "of_int \<lfloor>log 2 \<bar>x\<bar>\<rfloor> \<le> log 2 \<bar>x\<bar>"
    by (rule of_int_floor_le)
  then have "(2::real) powr of_int \<lfloor>log 2 \<bar>x\<bar>\<rfloor> \<le> 2 powr log 2 \<bar>x\<bar>"
    by simp
  then show ?thesis
    by (simp only: two_powr_log_abs [OF assms])
qed

lemma less_two_powr_floor_log:
  assumes "x \<noteq> 0"
  shows "\<bar>x\<bar> < 2 powr of_int (\<lfloor>log 2 \<bar>x\<bar>\<rfloor> + 1)"
proof -
  have "log 2 \<bar>x\<bar> < of_int (\<lfloor>log 2 \<bar>x\<bar>\<rfloor> + 1)"
    by linarith
  then have "(2::real) powr log 2 \<bar>x\<bar> < 2 powr of_int (\<lfloor>log 2 \<bar>x\<bar>\<rfloor> + 1)"
    by (simp; linarith)
  then show ?thesis
    by (simp only: two_powr_log_abs [OF assms])
qed

text \<open>Overflow.\<close>

lemma rnd_overflow:
  assumes p: "0 < p" and em: "emin \<le> 1" and x: "2 powr of_int (2 - emin) \<le> x"
  shows "rnd p emin x = PInf"
proof -
  define l where "l = \<lfloor>log 2 \<bar>x\<bar>\<rfloor>"
  have xpos: "0 < x"
    using x by (rule less_le_trans [rotated]) simp
  then have x0: "x \<noteq> 0" and ax: "\<bar>x\<bar> = x"
    by simp_all
  have "of_int (2 - emin) \<le> log 2 x"
    using x xpos by (simp add: le_log_iff)
  then have l1: "2 - emin \<le> l"
    by (simp add: l_def ax le_floor_iff)
  with em have mx: "max l emin = l"
    by simp
  have u: "ulp p emin x = 2 powr of_int (l - (int p - 1))"
    by (simp add: ulp_def l_def [symmetric] mx)
  have lx: "2 powr of_int l \<le> x"
    using two_powr_floor_log_le [OF x0] by (simp add: l_def ax)
  have "real_of_int (2 ^ (p - 1)) = 2 powr real (p - 1)"
    by (simp add: powr_realpow)
  also have "real (p - 1) = of_int (int p - 1)"
    using p by (simp add: of_nat_diff)
  finally have pw: "real_of_int (2 ^ (p - 1)) = 2 powr of_int (int p - 1)" .
  also have "\<dots> = 2 powr of_int l / ulp p emin x"
    by (simp add: u powr_diff [symmetric])
  also have "\<dots> \<le> x / ulp p emin x"
    using lx ulp_pos [of p emin x] by (simp add: divide_right_mono)
  finally have "2 ^ (p - 1) \<le> round_even (x / ulp p emin x)"
    by (rule round_even_ge)
  then have "real_of_int (2 ^ (p - 1)) \<le> real_of_int (round_even (x / ulp p emin x))"
    by (simp only: of_int_le_iff)
  then have "real_of_int (2 ^ (p - 1)) * ulp p emin x \<le>
      real_of_int (round_even (x / ulp p emin x)) * ulp p emin x"
    using ulp_pos [of p emin x] by (simp only: mult_le_cancel_right_pos)
  moreover have "real_of_int (2 ^ (p - 1)) * ulp p emin x = 2 powr of_int l"
    by (simp only: pw u powr_add [symmetric] of_int_add [symmetric]) simp
  moreover have "(2::real) powr of_int (2 - emin) \<le> 2 powr of_int l"
    using l1 by simp
  ultimately have "2 powr of_int (2 - emin) \<le>
      \<bar>real_of_int (round_even (x / ulp p emin x)) * ulp p emin x\<bar>"
    by linarith
  then show ?thesis
    using x0 xpos by (simp add: rnd_def Let_def)
qed

lemma exp_ge_two_power: "2 ^ n \<le> exp (real n)"
proof -
  have "(2::real) \<le> exp 1"
    using exp_ge_add_one_self [of 1] by simp
  then have "(2::real) ^ n \<le> exp 1 ^ n"
    by (intro power_mono) simp_all
  then show ?thesis
    by (simp add: exp_of_nat_mult [symmetric])
qed

lemma rnd32_exp_128: "rnd32 (exp 128) = PInf"
proof -
  have "(2::real) ^ 128 \<le> exp (real 128)"
    by (rule exp_ge_two_power)
  then have "2 powr of_int (2 - (- 126)) \<le> exp (128::real)"
    by simp
  from rnd_overflow [OF _ _ this, of 24] show ?thesis
    by (simp add: rnd32_def)
qed


text \<open>The quotient that is rounded to an integer lies within \<open>2 ^ p\<close>.\<close>

lemma abs_div_ulp_less:
  assumes "x \<noteq> 0"
  shows "\<bar>x\<bar> / ulp p emin x < 2 powr real p"
proof -
  define l where "l = \<lfloor>log 2 \<bar>x\<bar>\<rfloor>"
  have "\<bar>x\<bar> < 2 powr of_int (l + 1)"
    unfolding l_def by (rule less_two_powr_floor_log [OF assms])
  also have "\<dots> \<le> 2 powr of_int (max l emin + 1)"
    by simp
  also have "\<dots> = 2 powr real p * ulp p emin x"
    by (simp add: ulp_def l_def [symmetric] powr_add [symmetric])
  finally show ?thesis
    using ulp_pos [of p emin x] by (simp add: pos_divide_less_eq)
qed

lemma round_even_div_ulp_bounds:
  assumes "x \<noteq> 0"
  shows "- (2 ^ p) \<le> round_even (x / ulp p emin x) \<and> round_even (x / ulp p emin x) \<le> 2 ^ p"
proof -
  have "\<bar>x / ulp p emin x\<bar> = \<bar>x\<bar> / ulp p emin x"
    using ulp_pos [of p emin x] by simp
  also have "\<dots> < 2 powr real p"
    by (rule abs_div_ulp_less [OF assms])
  also have "\<dots> = real_of_int (2 ^ p)"
    by (simp add: powr_realpow)
  finally have b: "\<bar>x / ulp p emin x\<bar> < real_of_int (2 ^ p)" .
  then have "x / ulp p emin x \<le> real_of_int (2 ^ p)"
    by linarith
  then have 1: "round_even (x / ulp p emin x) \<le> 2 ^ p"
    by (rule round_even_le)
  from b have "- real_of_int (2 ^ p) \<le> x / ulp p emin x"
    by linarith
  then have "real_of_int (- (2 ^ p)) \<le> x / ulp p emin x"
    by (simp only: of_int_minus)
  then have "- (2 ^ p) \<le> round_even (x / ulp p emin x)"
    by (rule round_even_ge)
  with 1 show ?thesis by simp
qed

text \<open>Rounding gives a value that rounding leaves alone.\<close>

lemma rnd_idem:
  assumes p: "0 < p" and r: "rnd p emin x = Fin y"
  shows "rnd p emin y = Fin y"
proof (cases "x = 0")
  case True
  with r show ?thesis by simp
next
  case False
  define q where "q = max \<lfloor>log 2 \<bar>x\<bar>\<rfloor> emin - (int p - 1)"
  define k where "k = round_even (x / ulp p emin x)"
  have u: "ulp p emin x = 2 powr of_int q"
    by (simp add: ulp_def q_def)
  have qe: "emin - (int p - 1) \<le> q"
    by (simp add: q_def)
  from r False have nov: "\<not> 2 powr of_int (2 - emin) \<le> \<bar>real_of_int k * 2 powr of_int q\<bar>"
    and y: "y = real_of_int k * 2 powr of_int q"
    by (auto simp: rnd_def Let_def k_def u split: if_splits)
  from round_even_div_ulp_bounds [OF False, of p emin]
  have kb: "- (2 ^ p) \<le> k" "k \<le> 2 ^ p"
    by (simp_all add: k_def)
  have one: "\<bar>1::int\<bar> < 2 ^ p" "\<bar>- 1::int\<bar> < 2 ^ p"
    using p by (simp_all add: one_less_power)
  have pp: "(2::real) powr of_int (int p) = 2 ^ p"
    by (simp add: powr_realpow)
  consider "\<bar>k\<bar> < 2 ^ p" | "k = 2 ^ p" | "k = - (2 ^ p)"
    using kb by linarith
  then show ?thesis
  proof cases
    case 1
    have "\<bar>real_of_int k * 2 powr of_int q\<bar> < 2 powr of_int (2 - emin)"
      using nov by simp
    from rnd_representable [OF 1 qe this] show ?thesis
      by (simp only: y)
  next
    case 2
    have y2: "y = real_of_int 1 * 2 powr of_int (q + int p)"
      by (simp only: y 2 of_int_add powr_add pp; simp)
    have "emin - (int p - 1) \<le> q + int p"
      using qe by simp
    moreover have "\<bar>real_of_int 1 * 2 powr of_int (q + int p)\<bar> < 2 powr of_int (2 - emin)"
      using nov by (simp only: y2 [symmetric] y [symmetric]; simp)
    ultimately show ?thesis
      using rnd_representable [OF one(1), of emin "q + int p"] by (simp only: y2)
  next
    case 3
    have y3: "y = real_of_int (- 1) * 2 powr of_int (q + int p)"
      by (simp only: y 3 of_int_add powr_add pp; simp)
    have "emin - (int p - 1) \<le> q + int p"
      using qe by simp
    moreover have "\<bar>real_of_int (- 1) * 2 powr of_int (q + int p)\<bar> < 2 powr of_int (2 - emin)"
      using nov by (simp only: y3 [symmetric] y [symmetric]; simp)
    ultimately show ?thesis
      using rnd_representable [OF one(2), of emin "q + int p"] by (simp only: y3)
  qed
qed

text \<open>A value in \<open>(0, 1]\<close> is rounded to a value in \<open>[0, 1]\<close>.\<close>

lemma rnd_unit_interval:
  assumes p: "0 < p" and em: "emin \<le> 0" and v: "0 < v" "v \<le> 1"
  shows "\<exists>y. rnd p emin v = Fin y \<and> 0 \<le> y \<and> y \<le> 1"
proof -
  define q where "q = max \<lfloor>log 2 \<bar>v\<bar>\<rfloor> emin - (int p - 1)"
  define k where "k = round_even (v / ulp p emin v)"
  have u: "ulp p emin v = 2 powr of_int q"
    by (simp add: ulp_def q_def)
  have "log 2 \<bar>v\<bar> \<le> 0"
    using v by simp
  then have "\<lfloor>log 2 \<bar>v\<bar>\<rfloor> \<le> 0"
    by (simp add: floor_le_iff; linarith)
  then have "max \<lfloor>log 2 \<bar>v\<bar>\<rfloor> emin \<le> 0"
    using em by (rule max.boundedI)
  then have q0: "q \<le> 0"
    using p unfolding q_def by linarith
  have inv: "1 / 2 powr of_int q = real_of_int (2 ^ nat (- q))"
    using two_powr_int [of "- q"] q0 by (simp add: powr_minus field_simps)
  have "real_of_int 0 \<le> v / ulp p emin v"
    using v ulp_pos [of p emin v] by simp
  then have k0: "0 \<le> k"
    unfolding k_def by (rule round_even_ge)
  have "v / ulp p emin v \<le> 1 / 2 powr of_int q"
    using v by (simp add: u divide_right_mono)
  then have "v / ulp p emin v \<le> real_of_int (2 ^ nat (- q))"
    by (simp only: inv)
  then have "k \<le> 2 ^ nat (- q)"
    unfolding k_def by (rule round_even_le)
  then have "real_of_int k \<le> real_of_int (2 ^ nat (- q))"
    by (simp only: of_int_le_iff)
  then have "real_of_int k \<le> 1 / 2 powr of_int q"
    by (simp only: inv)
  then have y1: "real_of_int k * 2 powr of_int q \<le> 1"
    by (simp add: pos_le_divide_eq)
  have y0: "0 \<le> real_of_int k * 2 powr of_int q"
    using k0 by simp
  have "(1::real) < 2 powr of_int (2 - emin)"
    using em by (simp add: less_powr_iff [symmetric] del: of_int_diff)
  with y0 y1 have "\<not> 2 powr of_int (2 - emin) \<le> \<bar>real_of_int k * 2 powr of_int q\<bar>"
    by linarith
  moreover have "round_even (v / 2 powr of_int q) = k"
    by (simp add: k_def u)
  ultimately have "rnd p emin v = Fin (real_of_int k * 2 powr of_int q)"
    using v by (simp add: rnd_def Let_def u)
  with y0 y1 show ?thesis by blast
qed

text \<open>Single precision has no value strictly between \<open>1 - 2\<^sup>-\<^sup>2\<^sup>4\<close> and 1.\<close>

lemma rnd32_near_one:
  assumes v: "1 - 1 / 33554432 < v" "v < 1"
  shows "rnd32 v = Fin 1"
proof -
  have vpos: "0 < v" and av: "\<bar>v\<bar> = v"
    using v by simp_all
  have "log 2 v < 0"
    using v vpos by simp
  moreover have "- 1 \<le> log 2 v"
  proof -
    have "(2::real) powr (- 1) \<le> v"
      using v by (simp add: powr_minus)
    moreover have "(1::real) < 2"
      by simp
    ultimately show ?thesis
      using le_log_iff [of 2 v "- 1"] vpos by blast
  qed
  ultimately have "\<lfloor>log 2 v\<rfloor> = - 1"
    by (intro floor_unique) simp_all
  then have "max \<lfloor>log 2 \<bar>v\<bar>\<rfloor> (- 126) - (int 24 - 1) = - 24"
    by (simp only: av) simp
  then have "ulp 24 (- 126) v = 2 powr of_int (- 24)"
    by (simp only: ulp_def)
  also have "\<dots> = 1 / 2 ^ 24"
    by (simp add: powr_minus_divide)
  also have "\<dots> = 1 / 16777216"
    by simp
  finally have u: "ulp 24 (- 126) v = 1 / 16777216" .
  have d: "v / ulp 24 (- 126) v = v * 16777216"
    by (simp add: u)
  have fl: "\<lfloor>v * 16777216\<rfloor> = 16777215"
    using v by (intro floor_unique) simp_all
  have "round_even (v * 16777216) = 16777216"
    using v by (simp add: round_even_def Let_def fl)
  then show ?thesis
    using vpos by (simp add: rnd32_def rnd_def Let_def d u)
qed

lemma sigmoid_128_near_one:
  "1 - 1 / 33554432 < 1 / (1 + exp (- 128 :: real)) \<and> 1 / (1 + exp (- 128 :: real)) < 1"
proof -
  define e where "e = exp (- 128 :: real)"
  have e0: "0 < e"
    by (simp add: e_def)
  have "(2::real) ^ 128 \<le> exp (real 128)"
    by (rule exp_ge_two_power)
  then have "(33554432::real) < exp 128"
    by simp
  then have "e < 1 / 33554432"
    by (simp add: e_def exp_minus field_simps)
  then have "(1 - 1 / 33554432) * (1 + e) < 1"
    using e0 by (simp add: algebra_simps)
  then have "1 - 1 / 33554432 < 1 / (1 + e)"
    using e0 by (simp add: pos_less_divide_eq)
  moreover have "1 / (1 + e) < 1"
    using e0 by simp
  ultimately show ?thesis
    by (simp add: e_def)
qed

lemma rnd32_0 [simp]: "rnd32 0 = Fin 0"
  by (simp add: rnd32_def)

lemma rnd64_0 [simp]: "rnd64 0 = Fin 0"
  by (simp add: rnd64_def)

lemma rnd64_int:
  assumes "\<bar>m\<bar> < 2 ^ 53"
  shows "rnd64 (of_int m) = Fin (of_int m)"
proof -
  have "\<bar>real_of_int m\<bar> < real_of_int (2 ^ 53)"
    using assms by (simp only: of_int_abs of_int_less_iff [symmetric])
  then have "\<bar>real_of_int m * 2 powr of_int 0\<bar> < 2 powr of_int (2 - (- 1022))"
    by simp
  from rnd_representable [OF assms _ this] show ?thesis
    by (simp add: rnd64_def)
qed

lemma rnd32_numeral [simp]:
  "\<bar>numeral n :: int\<bar> < 2 ^ 24 \<Longrightarrow> rnd32 (numeral n) = Fin (numeral n)"
  using rnd32_int [of "numeral n"] by simp

lemma rnd64_numeral [simp]:
  "\<bar>numeral n :: int\<bar> < 2 ^ 53 \<Longrightarrow> rnd64 (numeral n) = Fin (numeral n)"
  using rnd64_int [of "numeral n"] by simp

lemma is_f32_rnd32 [simp]: "is_f32 (rnd32 x)"
proof (cases "rnd32 x")
  case (Fin y)
  then have "rnd 24 (- 126) x = Fin y"
    by (simp add: rnd32_def)
  then have "rnd 24 (- 126) y = Fin y"
    by (rule rnd_idem [rotated]) simp
  with Fin show ?thesis
    by (simp add: rnd32_def)
qed simp_all

lemma is_f32_fadd [simp]: "is_f32 (fadd a b)"
  by (cases a; cases b) (simp_all add: fadd_def)

lemma is_f32_fmul [simp]: "is_f32 (fmul a b)"
  by (cases a; cases b) (simp_all add: fmul_def)

lemma fadd_Fin [simp]: "fadd (Fin a) (Fin b) = rnd32 (a + b)"
  by (simp add: fadd_def)

lemma fmul_Fin [simp]: "fmul (Fin a) (Fin b) = rnd32 (a * b)"
  by (simp add: fmul_def)


lemma fadd_zero_left: "is_f32 x \<Longrightarrow> fadd (Fin 0) x = x"
  by (cases x) (simp_all add: fadd_def)


lemma fmul_zero_left: "is_finite x \<Longrightarrow> fmul (Fin 0) x = Fin 0"
  by (cases x) (simp_all add: fmul_def)

lemma fmul_one_left: "is_f32 x \<Longrightarrow> fmul (Fin 1) x = x"
  by (cases x) (simp_all add: fmul_def)

section \<open>Tensor operations: basic facts\<close>

lemma shape_tmap [simp]: "shape (tmap f x) = shape x"
  by (simp add: tmap_def)

lemma elems_tmap [simp]: "elems (tmap f x) = map f (elems x)"
  by (simp add: tmap_def)

lemma wf_tensor_tmap [simp]: "wf_tensor (tmap f x) = wf_tensor x"
  by (simp add: wf_tensor_def)

lemma shape_relu [simp]: "shape (relu x) = shape x"
  by (simp add: relu_def)

lemma shape_sigmoid [simp]: "shape (sigmoid x) = shape x"
  by (simp add: sigmoid_def)

lemma shape_scalar_mul [simp]: "shape (scalar_mul c x) = shape x"
  by (simp add: scalar_mul_def)

lemma wf_tensor_scalar_mul [simp]: "wf_tensor (scalar_mul c x) = wf_tensor x"
  by (simp add: scalar_mul_def)

lemma shape_smul [simp]: "shape (smul c x) = shape x"
  by (simp add: smul_def)

lemma shape_texp [simp]: "shape (texp x) = shape x"
  by (simp add: texp_def)

lemma wf_tensor_smul [simp]: "wf_tensor (smul c x) = wf_tensor x"
  by (simp add: smul_def)

lemma wf_tensor_texp [simp]: "wf_tensor (texp x) = wf_tensor x"
  by (simp add: texp_def)

lemma bc_rev_same: "bc_rev s s = Some s"
  by (induction s) simp_all

lemma broadcast_shapes_same [simp]: "broadcast_shapes s s = Some s"
  by (simp add: broadcast_shapes_def bc_rev_same)

lemma length_rows [simp]: "length (rows n k xs) = n"
  by (simp add: rows_def)

lemma rows_Suc: "rows (Suc n) k xs = rows n k xs @ [take k (drop (n * k) xs)]"
  by (simp add: rows_def)

lemma concat_rows_take: "concat (rows n k xs) = take (n * k) xs"
proof (induction n)
  case 0
  then show ?case by (simp add: rows_def)
next
  case (Suc n)
  have "take (Suc n * k) xs = take (n * k + k) xs"
    by (simp add: add.commute)
  also have "\<dots> = take (n * k) xs @ take k (drop (n * k) xs)"
    by (rule take_add)
  finally show ?case by (simp add: rows_Suc Suc.IH)
qed

lemma length_row:
  assumes "i < n" "length xs = n * k"
  shows "length (take k (drop (i * k) xs)) = k"
proof -
  have "Suc i \<le> n" using assms(1) by simp
  then have "Suc i * k \<le> n * k" by (rule mult_le_mono1)
  then show ?thesis using assms(2) by simp
qed

lemma expand_same: "length xs = prod_list s \<Longrightarrow> expand s s xs = xs"
proof (induction s arbitrary: xs)
  case Nil
  then show ?case by simp
next
  case (Cons a as)
  have "expand as as r = r" if "r \<in> set (rows a (prod_list as) xs)" for r
  proof -
    from that obtain i where "i < a" and r: "r = take (prod_list as) (drop (i * prod_list as) xs)"
      by (auto simp: rows_def)
    with Cons.prems have "length r = prod_list as"
      by (simp only: r length_row [of i a xs "prod_list as"] prod_list.Cons)
    then show ?thesis by (rule Cons.IH)
  qed
  then have "map (expand as as) (rows a (prod_list as) xs) = rows a (prod_list as) xs"
    by (simp add: map_idI)
  then show ?case using Cons.prems by (simp add: concat_rows_take)
qed

lemma expand_to_same: "wf_tensor x \<Longrightarrow> expand_to (shape x) x = elems x"
  by (simp add: expand_to_def wf_tensor_def expand_same)

lemma tbinop_same:
  "shape y = shape x \<Longrightarrow> wf_tensor x \<Longrightarrow> wf_tensor y \<Longrightarrow>
   tbinop f x y = Inr \<lparr>shape = shape x, elems = map2 f (elems x) (elems y)\<rparr>"
  using expand_to_same [of x] expand_to_same [of y]
  by (simp add: tbinop_def)

lemma tbinop_same_shape:
  "shape y = shape x \<Longrightarrow> \<exists>e. tbinop f x y = Inr \<lparr>shape = shape x, elems = e\<rparr>"
  by (simp add: tbinop_def)

lemma length_concat_affine:
  "length (concat (map (affine l) rs)) = length rs * out_features l"
  by (induction rs) (simp_all add: affine_def)

lemma linear_forward_ok:
  assumes "shape x = s @ [in_features l]"
  shows "\<exists>y. linear_forward l x = Inr y \<and> shape y = s @ [out_features l] \<and> wf_tensor y"
  using assms
  by (simp add: linear_forward_def wf_tensor_def length_concat_affine)

lemma linear_forward_Inr:
  "linear_forward l x = Inr y \<Longrightarrow>
   shape x \<noteq> [] \<and> last (shape x) = in_features l \<and>
   shape y = butlast (shape x) @ [out_features l] \<and> wf_tensor y"
  by (auto simp: linear_forward_def wf_tensor_def length_concat_affine
      split: if_splits)

lemma int_sqrt_square:
  assumes "k < 2 ^ 26"
  shows "int_sqrt (k * k) = Inr k"
proof -
  have "k * k < 2 ^ 26 * 2 ^ 26"
    using assms by (intro mult_strict_mono) simp_all
  then have kk: "k * k < 2 ^ 53"
    by simp
  then have "int (k * k) < 2 ^ 53"
    by (simp only: of_nat_less_numeral_power_cancel_iff)
  then have "\<bar>int (k * k)\<bar> < 2 ^ 53"
    by simp
  then have "rnd64 (of_int (int (k * k))) = Fin (of_int (int (k * k)))"
    by (rule rnd64_int)
  then have 1: "rnd64 (real (k * k)) = Fin (real (k * k))"
    by simp
  have 2: "sqrt (real (k * k)) = real k"
    by simp
  have "k < 2 ^ 53"
    using assms by (rule less_trans) simp
  then have "int k < 2 ^ 53"
    by (simp only: of_nat_less_numeral_power_cancel_iff)
  then have "\<bar>int k\<bar> < 2 ^ 53"
    by simp
  then have "rnd64 (of_int (int k)) = Fin (of_int (int k))"
    by (rule rnd64_int)
  then have 3: "rnd64 (real k) = Fin (real k)"
    by simp
  show ?thesis
    using 1 2 3 by (simp add: int_sqrt_def)
qed

lemma int_sqrt_784: "int_sqrt 784 = Inr 28"
  using int_sqrt_square [of 28] by simp

lemma in_features_Linear [simp]: "in_features (Linear w0 b0 n_in n_out) = n_in"
  by (simp add: Linear_def)

lemma out_features_Linear [simp]: "out_features (Linear w0 b0 n_in n_out) = n_out"
  by (simp add: Linear_def)

lemma wf_linear_Linear [simp]: "wf_linear (Linear w0 b0 n_in n_out)"
  by (simp add: wf_linear_def Linear_def wf_tensor_def)

lemma and_then_Inr [simp]: "and_then (Inr a) f = f a"
  by (simp add: and_then_def)

lemma and_then_Inl [simp]: "and_then (Inl e) f = Inl e"
  by (simp add: and_then_def)

lemma wf_vae_VariationalAutoencoder:
  assumes "VariationalAutoencoder ini d h l = Inr v"
  shows "wf_vae v \<and> input_dim v = d \<and> hidden_dim v = h \<and> latent_dim v = l"
proof (cases "int_sqrt d")
  case (Inl e)
  with assms show ?thesis
    by (simp add: VariationalAutoencoder_def)
next
  case (Inr w)
  with assms show ?thesis
    by (auto simp: VariationalAutoencoder_def wf_vae_def)
qed

section \<open>Encoder, decoder and reparameterization: basic facts\<close>

lemma flatten_bchw_ok:
  "shape x = [b, c, h, w] \<Longrightarrow> flatten_bchw x = Inr \<lparr>shape = [b, c * h * w], elems = elems x\<rparr>"
  by (simp add: flatten_bchw_def)

lemma flatten_bchw_Inr:
  "flatten_bchw x = Inr y \<Longrightarrow> \<exists>b c h w. shape x = [b, c, h, w] \<and> shape y = [b, c * h * w]"
  by (auto simp: flatten_bchw_def split: list.splits)

lemma flatten_bchw_fails:
  "length (shape x) \<noteq> 4 \<Longrightarrow> flatten_bchw x = Inl EinopsError"
  by (auto simp: flatten_bchw_def split: list.splits)

lemma add_batch_ok:
  "shape x = [c, h, w] \<Longrightarrow> add_batch x = Inr \<lparr>shape = [1, c, h, w], elems = elems x\<rparr>"
  by (simp add: add_batch_def)

lemma unflatten_bchw_Inr:
  "unflatten_bchw x c h w = Inr y \<Longrightarrow> \<exists>b. shape x = [b, c * h * w] \<and> shape y = [b, c, h, w]"
  by (auto simp: unflatten_bchw_def split: list.splits if_splits)

lemma encode_ok:
  assumes wf: "wf_vae v" and sx: "shape x = [b, c, h, w]" and n: "c * h * w = input_dim v"
  shows "\<exists>mean log_var. encode v x = Inr (mean, log_var) \<and>
           shape mean = [b, latent_dim v] \<and> shape log_var = [b, latent_dim v] \<and>
           wf_tensor mean \<and> wf_tensor log_var"
proof -
  let ?x0 = "\<lparr>shape = [b, c * h * w], elems = elems x\<rparr>"
  have f: "flatten_bchw x = Inr ?x0"
    using sx by (rule flatten_bchw_ok)
  have "shape ?x0 = [b] @ [in_features (enc_fc1 v)]"
    using wf n by (simp add: wf_vae_def)
  then obtain a1 where a1: "linear_forward (enc_fc1 v) ?x0 = Inr a1"
      and s1: "shape a1 = [b] @ [out_features (enc_fc1 v)]"
    using linear_forward_ok by blast
  have "shape (relu a1) = [b] @ [in_features (enc_fc2 v)]"
    using wf s1 by (simp add: wf_vae_def)
  then obtain a2 where a2: "linear_forward (enc_fc2 v) (relu a1) = Inr a2"
      and s2: "shape a2 = [b] @ [out_features (enc_fc2 v)]"
    using linear_forward_ok by blast
  have "shape (relu a2) = [b] @ [in_features (fc_mu v)]"
    using wf s2 by (simp add: wf_vae_def)
  then obtain mean where m: "linear_forward (fc_mu v) (relu a2) = Inr mean"
      and sm: "shape mean = [b] @ [out_features (fc_mu v)]" and wm: "wf_tensor mean"
    using linear_forward_ok by blast
  have "shape (relu a2) = [b] @ [in_features (fc_logvar v)]"
    using wf s2 by (simp add: wf_vae_def)
  then obtain log_var where l: "linear_forward (fc_logvar v) (relu a2) = Inr log_var"
      and sl: "shape log_var = [b] @ [out_features (fc_logvar v)]" and wl: "wf_tensor log_var"
    using linear_forward_ok by blast
  have "encode v x = Inr (mean, log_var)"
    by (simp add: encode_def f a1 a2 m l)
  moreover have "shape mean = [b, latent_dim v]" "shape log_var = [b, latent_dim v]"
    using wf sm sl by (simp_all add: wf_vae_def)
  ultimately show ?thesis using wm wl by blast
qed

lemma encode_Inr:
  assumes wf: "wf_vae v" and e: "encode v x = Inr r"
  shows "\<exists>b c h w. shape x = [b, c, h, w] \<and> c * h * w = input_dim v"
proof -
  from e obtain x0 where f: "flatten_bchw x = Inr x0"
    by (cases "flatten_bchw x") (simp_all add: encode_def)
  then obtain b c h w where sx: "shape x = [b, c, h, w]" and s0: "shape x0 = [b, c * h * w]"
    using flatten_bchw_Inr by blast
  from e f obtain a1 where "linear_forward (enc_fc1 v) x0 = Inr a1"
    by (cases "linear_forward (enc_fc1 v) x0") (simp_all add: encode_def)
  then have "last (shape x0) = in_features (enc_fc1 v)"
    using linear_forward_Inr by blast
  then have "c * h * w = input_dim v"
    using wf s0 by (simp add: wf_vae_def)
  with sx show ?thesis by blast
qed

lemma encode_not_4d:
  "length (shape x) \<noteq> 4 \<Longrightarrow> encode v x = Inl EinopsError"
  by (simp add: encode_def flatten_bchw_fails)

lemma encode_wrong_size:
  assumes wf: "wf_vae v" and sx: "shape x = [b, c, h, w]" and n: "c * h * w \<noteq> input_dim v"
  shows "encode v x = Inl RuntimeError"
proof -
  have "in_features (enc_fc1 v) = input_dim v"
    using wf by (simp add: wf_vae_def)
  then have "linear_forward (enc_fc1 v) \<lparr>shape = [b, c * h * w], elems = elems x\<rparr> = Inl RuntimeError"
    using n by (simp add: linear_forward_def)
  then show ?thesis
    by (simp add: encode_def flatten_bchw_ok [OF sx])
qed

lemma decode_ok:
  assumes wf: "wf_vae v" and sz: "shape z = [b, latent_dim v]"
    and sq: "input_dim v = image_width v * image_height v"
  shows "\<exists>y. decode v z = Inr y \<and> shape y = [b, 1, image_width v, image_height v] \<and>
           (\<exists>a. elems y = map fsigmoid a)"
proof -
  have "shape z = [b] @ [in_features (dec_fc1 v)]"
    using wf sz by (simp add: wf_vae_def)
  then obtain a1 where a1: "linear_forward (dec_fc1 v) z = Inr a1"
      and s1: "shape a1 = [b] @ [out_features (dec_fc1 v)]"
    using linear_forward_ok by blast
  have "shape (relu a1) = [b] @ [in_features (dec_fc2 v)]"
    using wf s1 by (simp add: wf_vae_def)
  then obtain a2 where a2: "linear_forward (dec_fc2 v) (relu a1) = Inr a2"
      and s2: "shape a2 = [b] @ [out_features (dec_fc2 v)]"
    using linear_forward_ok by blast
  have "shape (relu a2) = [b] @ [in_features (dec_fc3 v)]"
    using wf s2 by (simp add: wf_vae_def)
  then obtain a3 where a3: "linear_forward (dec_fc3 v) (relu a2) = Inr a3"
      and s3: "shape a3 = [b] @ [out_features (dec_fc3 v)]"
    using linear_forward_ok by blast
  have o3: "out_features (dec_fc3 v) = input_dim v"
    using wf by (simp add: wf_vae_def)
  have "shape (sigmoid a3) = [b, input_dim v]"
    using s3 o3 by simp
  then have "unflatten_bchw (sigmoid a3) 1 (image_width v) (image_height v) =
      Inr \<lparr>shape = [b, 1, image_width v, image_height v], elems = elems (sigmoid a3)\<rparr>"
    using sq by (simp add: unflatten_bchw_def)
  then have "decode v z =
      Inr \<lparr>shape = [b, 1, image_width v, image_height v], elems = map fsigmoid (elems a3)\<rparr>"
    by (simp add: decode_def a1 a2 a3 sigmoid_def)
  moreover have "shape \<lparr>shape = [b, 1, image_width v, image_height v],
      elems = map fsigmoid (elems a3)\<rparr> = [b, 1, image_width v, image_height v]"
    by simp
  moreover have "elems \<lparr>shape = [b, 1, image_width v, image_height v],
      elems = map fsigmoid (elems a3)\<rparr> = map fsigmoid (elems a3)"
    by simp
  ultimately show ?thesis
    by blast
qed

lemma decode_Inr:
  assumes wf: "wf_vae v" and d: "decode v z = Inr y"
  shows "input_dim v = image_width v * image_height v"
proof -
  from d obtain a1 where a1: "linear_forward (dec_fc1 v) z = Inr a1"
    by (cases "linear_forward (dec_fc1 v) z") (simp_all add: decode_def)
  from d a1 obtain a2 where a2: "linear_forward (dec_fc2 v) (relu a1) = Inr a2"
    by (cases "linear_forward (dec_fc2 v) (relu a1)") (simp_all add: decode_def)
  from d a1 a2 obtain a3 where a3: "linear_forward (dec_fc3 v) (relu a2) = Inr a3"
    by (cases "linear_forward (dec_fc3 v) (relu a2)") (simp_all add: decode_def)
  from d a1 a2 a3 have u: "unflatten_bchw (sigmoid a3) 1 (image_width v) (image_height v) = Inr y"
    by (simp add: decode_def)
  then obtain b where "shape (sigmoid a3) = [b, 1 * image_width v * image_height v]"
    using unflatten_bchw_Inr by blast
  moreover have "last (shape a3) = out_features (dec_fc3 v)"
    using linear_forward_Inr [OF a3] by simp
  ultimately show ?thesis
    using wf by (simp add: wf_vae_def)
qed

lemma decode_not_square:
  assumes wf: "wf_vae v" and sz: "shape z = [b, latent_dim v]"
    and sq: "input_dim v \<noteq> image_width v * image_height v"
  shows "decode v z = Inl EinopsError"
proof -
  have "shape z = [b] @ [in_features (dec_fc1 v)]"
    using wf sz by (simp add: wf_vae_def)
  then obtain a1 where a1: "linear_forward (dec_fc1 v) z = Inr a1"
      and s1: "shape a1 = [b] @ [out_features (dec_fc1 v)]"
    using linear_forward_ok by blast
  have "shape (relu a1) = [b] @ [in_features (dec_fc2 v)]"
    using wf s1 by (simp add: wf_vae_def)
  then obtain a2 where a2: "linear_forward (dec_fc2 v) (relu a1) = Inr a2"
      and s2: "shape a2 = [b] @ [out_features (dec_fc2 v)]"
    using linear_forward_ok by blast
  have "shape (relu a2) = [b] @ [in_features (dec_fc3 v)]"
    using wf s2 by (simp add: wf_vae_def)
  then obtain a3 where a3: "linear_forward (dec_fc3 v) (relu a2) = Inr a3"
      and s3: "shape a3 = [b] @ [out_features (dec_fc3 v)]"
    using linear_forward_ok by blast
  have o3: "out_features (dec_fc3 v) = input_dim v"
    using wf by (simp add: wf_vae_def)
  have "shape (sigmoid a3) = [b, input_dim v]"
    using s3 o3 by simp
  then have "unflatten_bchw (sigmoid a3) 1 (image_width v) (image_height v) = Inl EinopsError"
    using sq by (simp add: unflatten_bchw_def)
  then show ?thesis
    by (simp add: decode_def a1 a2 a3)
qed

lemma map2_nth:
  "length xs = n \<Longrightarrow> length ys = n \<Longrightarrow> map2 f xs ys = map (\<lambda>i. f (xs ! i) (ys ! i)) [0..<n]"
  by (rule nth_equalityI) simp_all

lemma reparameterization_same:
  assumes wm: "wf_tensor mean" and wv: "wf_tensor var" and s: "shape var = shape mean"
  shows "reparameterization mean var g =
    (Inr \<lparr>shape = shape mean,
          elems = map (\<lambda>i. fadd (elems mean ! i) (fmul (elems var ! i) (g i)))
                      [0..<prod_list (shape mean)]\<rparr>,
     \<lambda>i. g (i + prod_list (shape mean)))"
proof -
  let ?n = "prod_list (shape mean)"
  let ?eps = "\<lparr>shape = shape var, elems = map g [0..<?n]\<rparr>"
  let ?p = "\<lparr>shape = shape var, elems = map2 fmul (elems var) (map g [0..<?n])\<rparr>"
  have lm: "length (elems mean) = ?n" and lv: "length (elems var) = ?n"
    using wm wv s by (simp_all add: wf_tensor_def)
  have we: "wf_tensor ?eps"
    using s by (simp add: wf_tensor_def)
  have mul: "tmul var ?eps = Inr ?p"
    unfolding tmul_def using tbinop_same [of ?eps var fmul] wv we by simp
  have wp: "wf_tensor ?p"
    using lv s by (simp add: wf_tensor_def)
  have add: "tadd mean ?p = Inr \<lparr>shape = shape mean, elems = map2 fadd (elems mean) (elems ?p)\<rparr>"
    unfolding tadd_def using tbinop_same [of ?p mean fadd] wm wp s by simp
  have "map2 fadd (elems mean) (elems ?p) =
      map (\<lambda>i. fadd (elems mean ! i) (fmul (elems var ! i) (g i))) [0..<?n]"
    using lm lv by (intro nth_equalityI) simp_all
  with add have "tadd mean ?p = Inr \<lparr>shape = shape mean,
      elems = map (\<lambda>i. fadd (elems mean ! i) (fmul (elems var ! i) (g i))) [0..<?n]\<rparr>"
    by simp
  then show ?thesis
    using mul s by (simp add: reparameterization_def randn_like_def Let_def)
qed

lemma reparameterization_ok:
  assumes "wf_tensor mean" "wf_tensor var" "shape var = shape mean"
  shows "\<exists>z g'. reparameterization mean var g = (Inr z, g') \<and> shape z = shape mean \<and> wf_tensor z"
  using reparameterization_same [OF assms, of g]
  by (simp add: wf_tensor_def)

section \<open>The forward pass\<close>

lemma shape_full [simp]: "shape (full s c) = s"
  by (simp add: full_def)

lemma elems_full [simp]: "elems (full s c) = replicate (prod_list s) c"
  by (simp add: full_def)

lemma wf_tensor_full [simp]: "wf_tensor (full s c)"
  by (simp add: full_def wf_tensor_def)

lemma shape_zeros [simp]: "shape (zeros s) = s"
  by (simp add: zeros_def)

lemma wf_tensor_zeros [simp]: "wf_tensor (zeros s)"
  by (simp add: zeros_def)

lemma MNIST_VAE_Inr:
  "MNIST_VAE ini =
     Inr \<lparr>input_dim = 784, hidden_dim = 400, latent_dim = 200,
          image_width = 28, image_height = 28,
          enc_fc1 = Linear (fst (ini 0)) (snd (ini 0)) 784 400,
          enc_fc2 = Linear (fst (ini 1)) (snd (ini 1)) 400 400,
          fc_mu = Linear (fst (ini 2)) (snd (ini 2)) 400 200,
          fc_logvar = Linear (fst (ini 3)) (snd (ini 3)) 400 200,
          dec_fc1 = Linear (fst (ini 4)) (snd (ini 4)) 200 400,
          dec_fc2 = Linear (fst (ini 5)) (snd (ini 5)) 400 400,
          dec_fc3 = Linear (fst (ini 6)) (snd (ini 6)) 400 784\<rparr>"
  by (simp add: MNIST_VAE_def VariationalAutoencoder_def int_sqrt_784)

lemma wf_vae_MNIST [simp]: "wf_vae (projr (MNIST_VAE ini))"
  by (simp add: MNIST_VAE_Inr wf_vae_def int_sqrt_784)

lemma input_dim_MNIST [simp]: "input_dim (projr (MNIST_VAE ini)) = 784"
  by (simp add: MNIST_VAE_Inr)

lemma latent_dim_MNIST [simp]: "latent_dim (projr (MNIST_VAE ini)) = 200"
  by (simp add: MNIST_VAE_Inr)

lemma image_size_784:
  "wf_vae v \<Longrightarrow> input_dim v = 784 \<Longrightarrow> image_width v = 28 \<and> image_height v = 28"
  by (simp add: wf_vae_def int_sqrt_784)

lemma last3_batch [simp]: "last3 [b, c, h, w] = [c, h, w]"
  by (simp add: last3_def)

lemma forward_asserted:
  "last3 (shape x) = [1, 28, 28] \<Longrightarrow> forward v x g = pipeline_spec v x g"
  by (auto simp: forward_def pipeline_spec_def Let_def split: sum.splits prod.splits)

lemma stddev_props:
  "wf_tensor lv \<Longrightarrow> wf_tensor (texp (smul (1/2) lv)) \<and> shape (texp (smul (1/2) lv)) = shape lv"
  by simp

lemma forward_ok:
  assumes wf: "wf_vae v" and d: "input_dim v = 784" and sx: "shape x = [b, 1, 28, 28]"
  shows "\<exists>mean log_var z x_hat g'.
     encode v x = Inr (mean, log_var) \<and>
     reparameterization mean (texp (smul 0.5 log_var)) g = (Inr z, g') \<and>
     decode v z = Inr x_hat \<and> shape x_hat = [b, 1, 28, 28] \<and>
     forward v x g = (Inr (x_hat, mean, log_var), g')"
proof -
  have "(1::nat) * 28 * 28 = input_dim v" using d by simp
  from encode_ok [OF wf sx this] obtain mean log_var where
    e: "encode v x = Inr (mean, log_var)" and sm: "shape mean = [b, latent_dim v]"
    and sl: "shape log_var = [b, latent_dim v]" and wm: "wf_tensor mean" and wl: "wf_tensor log_var"
    by blast
  have "wf_tensor (texp (smul 0.5 log_var))" "shape (texp (smul 0.5 log_var)) = shape mean"
    using wl sm sl by simp_all
  from reparameterization_ok [OF wm this] obtain z g' where
    r: "reparameterization mean (texp (smul 0.5 log_var)) g = (Inr z, g')"
    and sz: "shape z = shape mean"
    by blast
  have sq: "input_dim v = image_width v * image_height v"
    using d image_size_784 [OF wf d] by simp
  from sz sm have "shape z = [b, latent_dim v]" by simp
  from decode_ok [OF wf this sq] obtain x_hat where
    dc: "decode v z = Inr x_hat" and sh: "shape x_hat = [b, 1, image_width v, image_height v]"
    by blast
  have sh': "shape x_hat = [b, 1, 28, 28]"
    using sh image_size_784 [OF wf d] by simp
  have "forward v x g = (Inr (x_hat, mean, log_var), g')"
    using sx e r dc by (simp add: forward_def)
  with e r dc sh' show ?thesis by blast
qed

text \<open>
  C1. An input whose last three dimensions pass the assertion goes through exactly the
  pipeline encode, standard deviation \<open>exp(0.5 * log_var)\<close>, reparameterization, decode,
  an exception of any step ending the call. On a batch of shape \<open>(b, 1, 28, 28)\<close> and a
  model built for 784 inputs every step succeeds, and the call returns the decoded sample
  together with the encoder's mean and log-variance as they are.
\<close>

theorem forward_pipeline:
  "(last3 (shape x) = [1, 28, 28] \<longrightarrow> forward v x g = pipeline_spec v x g) \<and>
   (wf_vae v \<and> input_dim v = 784 \<and> shape x = [b, 1, 28, 28] \<longrightarrow>
      (\<exists>mean log_var z x_hat g'.
         encode v x = Inr (mean, log_var) \<and>
         reparameterization mean (texp (smul 0.5 log_var)) g = (Inr z, g') \<and>
         decode v z = Inr x_hat \<and> shape x_hat = [b, 1, 28, 28] \<and>
         forward v x g = (Inr (x_hat, mean, log_var), g')))"
  using forward_asserted [of x v g] forward_ok [of v x b g] by blast

theorem forward_pipeline_witness:
  "last3 (shape (zeros [2, 1, 28, 28])) = [1, 28, 28] \<and>
   forward (projr (MNIST_VAE zero_init)) (zeros [2, 1, 28, 28]) zero_gen =
     pipeline_spec (projr (MNIST_VAE zero_init)) (zeros [2, 1, 28, 28]) zero_gen \<and>
   wf_vae (projr (MNIST_VAE zero_init)) \<and> input_dim (projr (MNIST_VAE zero_init)) = 784 \<and>
   shape (zeros [2, 1, 28, 28]) = [2, 1, 28, 28] \<and>
   (\<exists>mean log_var z x_hat g'.
      encode (projr (MNIST_VAE zero_init)) (zeros [2, 1, 28, 28]) = Inr (mean, log_var) \<and>
      reparameterization mean (texp (smul 0.5 log_var)) zero_gen = (Inr z, g') \<and>
      decode (projr (MNIST_VAE zero_init)) z = Inr x_hat \<and> shape x_hat = [2, 1, 28, 28] \<and>
      forward (projr (MNIST_VAE zero_init)) (zeros [2, 1, 28, 28]) zero_gen =
        (Inr (x_hat, mean, log_var), g'))"
proof -
  have h1: "last3 (shape (zeros [2, 1, 28, 28])) = [1, 28, 28]"
    by simp
  have h2: "wf_vae (projr (MNIST_VAE zero_init)) \<and> input_dim (projr (MNIST_VAE zero_init)) = 784 \<and>
      shape (zeros [2, 1, 28, 28]) = [2, 1, 28, 28]"
    by simp
  show ?thesis
    using forward_pipeline [of "zeros [2, 1, 28, 28]" "projr (MNIST_VAE zero_init)" zero_gen 2] h1 h2
    by blast
qed

section \<open>Reparameterization\<close>




section \<open>Tensors filled with one value\<close>

lemma map_upt_const: "(\<And>i. i < n \<Longrightarrow> f i = c) \<Longrightarrow> map f [0..<n] = replicate n c"
  by (intro nth_equalityI) simp_all

lemma concat_replicate_replicate: "concat (replicate k (replicate m x)) = replicate (k * m) x"
  by (induction k) (simp_all add: replicate_add)

lemma rows_replicate: "rows k n (replicate (k * n) a) = replicate k (replicate n a)"
proof (rule nth_equalityI)
  show "length (rows k n (replicate (k * n) a)) = length (replicate k (replicate n a))"
    by simp
next
  fix i
  assume "i < length (rows k n (replicate (k * n) a))"
  then have i: "i < k"
    by simp
  then have "Suc i \<le> k"
    by simp
  then have "Suc i * n \<le> k * n"
    by (rule mult_le_mono1)
  then have "n \<le> k * n - i * n"
    by simp
  then show "rows k n (replicate (k * n) a) ! i = replicate k (replicate n a) ! i"
    using i by (simp add: rows_def min_def)
qed

lemma Linear_const:
  "Linear (\<lambda>i. w) (\<lambda>i. c) n m =
     \<lparr>in_features = n, out_features = m, weight = full [m, n] w, bias = full [m] c\<rparr>"
  by (simp add: Linear_def full_def map_replicate_const)

lemma dot_replicate:
  "dot (replicate n w) (replicate n a) = foldl fadd (Fin 0) (replicate n (fmul w a))"
  by (simp add: dot_def)

lemma affine_const:
  "affine (Linear (\<lambda>i. w) (\<lambda>i. c) n m) (replicate n a) =
     replicate m (fadd (dot (replicate n w) (replicate n a)) c)"
proof -
  have "take n (drop (j * n) (replicate (m * n) w)) = replicate n w" if "j < m" for j
  proof -
    from that have "Suc j \<le> m"
      by simp
    then have "Suc j * n \<le> m * n"
      by (rule mult_le_mono1)
    then have "n \<le> m * n - j * n"
      by simp
    then show ?thesis
      by (simp add: min_def)
  qed
  then show ?thesis
    by (simp add: affine_def Linear_const map_upt_const)
qed

lemma linear_forward_full:
  "linear_forward (Linear (\<lambda>i. w) (\<lambda>i. c) n m) (full [k, n] a) =
     Inr (full [k, m] (fadd (dot (replicate n w) (replicate n a)) c))"
proof -
  have "rows k n (elems (full [k, n] a)) = replicate k (replicate n a)"
    using rows_replicate [of k n a] by simp
  then show ?thesis
    by (simp add: linear_forward_def affine_const concat_replicate_replicate full_def)
qed

lemma relu_full [simp]: "relu (full s c) = full s (frelu c)"
  by (simp add: relu_def tmap_def full_def)

lemma sigmoid_full [simp]: "sigmoid (full s c) = full s (fsigmoid c)"
  by (simp add: sigmoid_def tmap_def full_def)

lemma texp_full [simp]: "texp (full s c) = full s (fexp c)"
  by (simp add: texp_def tmap_def full_def)

lemma scalar_mul_full [simp]: "scalar_mul c (full s a) = full s (fmul (to_f32 c) a)"
  by (simp add: scalar_mul_def tmap_def full_def)

lemma flatten_bchw_full: "flatten_bchw (full [b, c, h, w] a) = Inr (full [b, c * h * w] a)"
  by (simp add: flatten_bchw_def full_def mult.assoc)

lemma unflatten_bchw_full:
  "unflatten_bchw (full [b, c * h * w] a) c h w = Inr (full [b, c, h, w] a)"
  by (simp add: unflatten_bchw_def full_def mult.assoc)

lemma add_batch_full: "add_batch (full [c, h, w] a) = Inr (full [1, c, h, w] a)"
  by (simp add: add_batch_def full_def)

lemma squeeze0_full: "squeeze0 (full [1, c, h, w] a) = full [c, h, w] a"
  by (simp add: squeeze0_def full_def)

lemma tadd_full: "tadd (full s a) (full s b) = Inr (full s (fadd a b))"
  using tbinop_same [of "full s b" "full s a" fadd]
  by (simp add: tadd_def)

lemma reparameterization_full:
  assumes "\<And>i. i < prod_list s \<Longrightarrow> g i = e"
  shows "reparameterization (full s m) (full s d) g =
           (Inr (full s (fadd m (fmul d e))), \<lambda>i. g (i + prod_list s))"
proof -
  have "map (\<lambda>i. fadd (elems (full s m) ! i) (fmul (elems (full s d) ! i) (g i)))
      [0..<prod_list s] = replicate (prod_list s) (fadd m (fmul d e))"
    using assms by (intro map_upt_const) simp
  then show ?thesis
    using reparameterization_same [of "full s m" "full s d" g]
    by simp
qed

lemma foldl_fadd_zeros: "foldl fadd (Fin 0) (replicate n (Fin 0)) = Fin 0"
  by (induction n) simp_all

lemma foldl_fadd_PInf: "foldl fadd PInf (replicate n PInf) = PInf"
  by (induction n) (simp_all add: fadd_def)

lemma foldl_fadd_NaN: "foldl fadd NaN xs = NaN"
  by (induction xs) (simp_all add: fadd_def)

lemma dot_zeros [simp]: "dot (replicate n (Fin 0)) (replicate n (Fin 0)) = Fin 0"
  by (simp add: dot_replicate foldl_fadd_zeros)

lemma fadd_NaN_right [simp]: "fadd x NaN = NaN"
  by (cases x) (simp_all add: fadd_def)

lemma fadd_NaN_left [simp]: "fadd NaN x = NaN"
  by (simp add: fadd_def)

lemma fadd_zero_PInf [simp]: "fadd (Fin a) PInf = PInf"
  by (simp add: fadd_def)

lemma fadd_PInf_zero [simp]: "fadd PInf (Fin a) = PInf"
  by (simp add: fadd_def)

lemma fmul_one_PInf [simp]: "fmul (Fin 1) PInf = PInf"
  by (simp add: fmul_def)

lemma fmul_PInf_one [simp]: "fmul PInf (Fin 1) = PInf"
  by (simp add: fmul_def)

lemma fmul_PInf_zero [simp]: "fmul PInf (Fin 0) = NaN"
  by (simp add: fmul_def)

lemma fmul_NaN_right [simp]: "fmul x NaN = NaN"
  by (cases x) (simp_all add: fmul_def)

lemma foldl_fadd_zero_PInf: "0 < n \<Longrightarrow> foldl fadd (Fin 0) (replicate n PInf) = PInf"
  by (cases n) (simp_all add: foldl_fadd_PInf)

lemma foldl_fadd_zero_NaN: "0 < n \<Longrightarrow> foldl fadd (Fin 0) (replicate n NaN) = NaN"
  by (cases n) (simp_all add: foldl_fadd_NaN)

lemma dot_ones_PInf: "0 < n \<Longrightarrow> dot (replicate n (Fin 1)) (replicate n PInf) = PInf"
  by (simp add: dot_replicate foldl_fadd_zero_PInf)

lemma dot_ones_NaN: "0 < n \<Longrightarrow> dot (replicate n (Fin 1)) (replicate n NaN) = NaN"
  by (simp add: dot_replicate foldl_fadd_zero_NaN)

lemma layer_init_simps [simp]:
  "fst (layer_init w b k) = (\<lambda>i. w k)" "snd (layer_init w b k) = (\<lambda>i. b k)"
  by (simp_all add: layer_init_def)

lemma MNIST_layers [simp]:
  "enc_fc1 (projr (MNIST_VAE ini)) = Linear (fst (ini 0)) (snd (ini 0)) 784 400"
  "enc_fc2 (projr (MNIST_VAE ini)) = Linear (fst (ini 1)) (snd (ini 1)) 400 400"
  "fc_mu (projr (MNIST_VAE ini)) = Linear (fst (ini 2)) (snd (ini 2)) 400 200"
  "fc_logvar (projr (MNIST_VAE ini)) = Linear (fst (ini 3)) (snd (ini 3)) 400 200"
  "dec_fc1 (projr (MNIST_VAE ini)) = Linear (fst (ini 4)) (snd (ini 4)) 200 400"
  "dec_fc2 (projr (MNIST_VAE ini)) = Linear (fst (ini 5)) (snd (ini 5)) 400 400"
  "dec_fc3 (projr (MNIST_VAE ini)) = Linear (fst (ini 6)) (snd (ini 6)) 400 784"
  "image_width (projr (MNIST_VAE ini)) = 28" "image_height (projr (MNIST_VAE ini)) = 28"
  by (simp_all add: MNIST_VAE_Inr)

lemma encode_zero_model:
  "c * h * w = 784 \<Longrightarrow>
   encode (projr (MNIST_VAE zero_init)) (zeros [b, c, h, w]) = Inr (zeros [b, 200], zeros [b, 200])"
  by (simp add: encode_def zeros_def zero_init_def flatten_bchw_full linear_forward_full)

section \<open>The encoder\<close>

text \<open>
  C6. For a model with the layer sizes the constructor gives it and a four-dimensional
  batch whose flattened samples have \<open>input_dim\<close> elements, \<open>encode\<close> returns a mean and a
  log-variance that both have the shape \<open>(batch_size, latent_dim)\<close>.
\<close>

theorem encode_shapes:
  assumes "wf_vae v" "shape x = [b, c, h, w]" "c * h * w = input_dim v"
  shows "\<exists>mean log_var. encode v x = Inr (mean, log_var) \<and>
           shape mean = [b, latent_dim v] \<and> shape log_var = [b, latent_dim v]"
  using encode_ok [OF assms] by blast

theorem encode_shapes_witness:
  "wf_vae (projr (MNIST_VAE zero_init)) \<and> shape (zeros [2, 1, 28, 28]) = [2, 1, 28, 28] \<and>
   1 * 28 * 28 = input_dim (projr (MNIST_VAE zero_init)) \<and>
   (\<exists>mean log_var. encode (projr (MNIST_VAE zero_init)) (zeros [2, 1, 28, 28]) = Inr (mean, log_var) \<and>
      shape mean = [2, latent_dim (projr (MNIST_VAE zero_init))] \<and>
      shape log_var = [2, latent_dim (projr (MNIST_VAE zero_init))])"
proof -
  have h: "wf_vae (projr (MNIST_VAE zero_init))" "shape (zeros [2, 1, 28, 28]) = [2, 1, 28, 28]"
    "1 * 28 * 28 = input_dim (projr (MNIST_VAE zero_init))"
    by simp_all
  show ?thesis
    by (rule conjI [OF h(1) conjI [OF h(2) conjI [OF h(3) encode_shapes [OF h]]]])
qed

section \<open>The shape assertions\<close>

lemma interpolate_asserted:
  "shape input_img1 \<noteq> [1, 28, 28] \<or> shape input_img2 \<noteq> [1, 28, 28] \<Longrightarrow>
   interpolate v input_img1 input_img2 t g = (Inl AssertionError, g)"
  by (cases "shape input_img1 = [1, 28, 28]") (simp_all add: interpolate_def)

lemma forward_not_asserted:
  "last3 (shape x) \<noteq> [1, 28, 28] \<Longrightarrow> forward v x g = (Inl AssertionError, g)"
  by (simp add: forward_def)

text \<open>
  C7. When the last three dimensions of its input are not \<open>(1, 28, 28)\<close>, \<open>forward\<close> of
  the autoencoder raises the assertion's error, and so does \<open>forward\<close> of the
  interpolation model when the shape of either image is not \<open>(1, 28, 28)\<close>. In both cases
  nothing else has happened: the random generator is as it was before the call, so no
  noise was drawn, and the result is the error alone.
\<close>

theorem shape_assertions:
  "(last3 (shape x) \<noteq> [1, 28, 28] \<longrightarrow> forward v x g = (Inl AssertionError, g)) \<and>
   (shape input_img1 \<noteq> [1, 28, 28] \<or> shape input_img2 \<noteq> [1, 28, 28] \<longrightarrow>
      interpolate v input_img1 input_img2 t g = (Inl AssertionError, g))"
  using forward_not_asserted [of x v g] interpolate_asserted [of input_img1 input_img2 v t g]
  by blast

theorem shape_assertions_witness:
  "last3 (shape (zeros [2, 3, 28, 28])) \<noteq> [1, 28, 28] \<and>
   forward (projr (MNIST_VAE zero_init)) (zeros [2, 3, 28, 28]) zero_gen =
     (Inl AssertionError, zero_gen) \<and>
   shape (zeros [1, 32, 32]) \<noteq> [1, 28, 28] \<and>
   interpolate (projr (MNIST_VAE zero_init)) (zeros [1, 28, 28]) (zeros [1, 32, 32]) (Fin 0) zero_gen =
     (Inl AssertionError, zero_gen)"
proof -
  have h1: "last3 (shape (zeros [2, 3, 28, 28])) \<noteq> [1, 28, 28]"
    by simp
  have h2: "shape (zeros [1, 32, 32]) \<noteq> [1, 28, 28]"
    by simp
  then have h3: "shape (zeros [1, 28, 28]) \<noteq> [1, 28, 28] \<or> shape (zeros [1, 32, 32]) \<noteq> [1, 28, 28]"
    by (rule disjI2)
  note t = shape_assertions [where x = "zeros [2, 3, 28, 28]" and v = "projr (MNIST_VAE zero_init)"
      and g = zero_gen and ?input_img1.0 = "zeros [1, 28, 28]" and ?input_img2.0 = "zeros [1, 32, 32]"
      and t = "Fin 0"]
  show ?thesis
    by (rule conjI [OF h1 conjI [OF mp [OF conjunct1 [OF t] h1] conjI [OF h2 mp [OF conjunct2 [OF t] h3]]]])
qed

text \<open>
  C8, as the source has it. \<open>encode\<close> fails exactly when its input is not
  four-dimensional (an error of the rearrangement) or when channels times height times
  width is not \<open>input_dim\<close> (an error of the first layer); it succeeds on every batch
  \<open>(b, c, h, w)\<close> with \<open>c * h * w = input_dim\<close>, whatever the three sizes are.
\<close>

theorem encode_failure_cases:
  assumes "wf_vae v"
  shows "(length (shape x) \<noteq> 4 \<longrightarrow> encode v x = Inl EinopsError) \<and>
         (shape x = [b, c, h, w] \<and> c * h * w \<noteq> input_dim v \<longrightarrow> encode v x = Inl RuntimeError) \<and>
         (shape x = [b, c, h, w] \<and> c * h * w = input_dim v \<longrightarrow>
            (\<exists>mean log_var. encode v x = Inr (mean, log_var)))"
proof (intro conjI impI)
  assume "length (shape x) \<noteq> 4"
  then show "encode v x = Inl EinopsError"
    by (rule encode_not_4d)
next
  assume "shape x = [b, c, h, w] \<and> c * h * w \<noteq> input_dim v"
  then show "encode v x = Inl RuntimeError"
    using encode_wrong_size [OF assms] by blast
next
  assume "shape x = [b, c, h, w] \<and> c * h * w = input_dim v"
  then show "\<exists>mean log_var. encode v x = Inr (mean, log_var)"
    using encode_ok [OF assms] by blast
qed

theorem encode_failure_cases_witness:
  "wf_vae (projr (MNIST_VAE zero_init)) \<and>
   length (shape (zeros [28, 28])) \<noteq> 4 \<and>
   encode (projr (MNIST_VAE zero_init)) (zeros [28, 28]) = Inl EinopsError \<and>
   shape (zeros [2, 3, 28, 28]) = [2, 3, 28, 28] \<and>
   3 * 28 * 28 \<noteq> input_dim (projr (MNIST_VAE zero_init)) \<and>
   encode (projr (MNIST_VAE zero_init)) (zeros [2, 3, 28, 28]) = Inl RuntimeError"
proof -
  have w: "wf_vae (projr (MNIST_VAE zero_init))"
    by simp
  have h1: "length (shape (zeros [28, 28])) \<noteq> 4"
    by simp
  have h2: "shape (zeros [2, 3, 28, 28]) = [2, 3, 28, 28]"
    and h3: "3 * 28 * 28 \<noteq> input_dim (projr (MNIST_VAE zero_init))"
    by simp_all
  note t1 = encode_failure_cases [OF w, where x = "zeros [28, 28]", THEN conjunct1, THEN mp, OF h1]
  note t2 = encode_failure_cases [OF w, where x = "zeros [2, 3, 28, 28]" and b = 2 and c = 3
      and h = 28 and w = 28, THEN conjunct2, THEN conjunct1, THEN mp, OF conjI [OF h2 h3]]
  show ?thesis
    by (rule conjI [OF w conjI [OF h1 conjI [OF t1 conjI [OF h2 conjI [OF h3 t2]]]]])
qed

text \<open>
  C8 as it is worded does not hold: the MNIST model encodes a batch of samples of shape
  \<open>(4, 14, 14)\<close>, which is not \<open>(1, 28, 28)\<close>.
\<close>

theorem encode_accepts_other_layout:
  "encode (projr (MNIST_VAE zero_init)) (zeros [2, 4, 14, 14]) = Inr (zeros [2, 200], zeros [2, 200])"
  by (rule encode_zero_model) simp

end
